theory Spec2Isabelle
  imports Main
begin

section \<open>Python values, exceptions and results\<close>

text \<open>
  The fields of \<^verbatim>\<open>BackendClient\<close> and the entries of the credential bundle hold
  whatever the JSON of the server or of the credential store holds: \<^verbatim>\<open>None\<close>,
  a string or an integer.
\<close>

datatype pyval = PNone | PStr string | PInt int

text \<open>Python truthiness, as used by \<^verbatim>\<open>if data.get('username')\<close> and \<^verbatim>\<open>if not self.refresh_token\<close>.\<close>

fun truthy :: "pyval \<Rightarrow> bool" where
  "truthy PNone = False"
| "truthy (PStr s) = (s \<noteq> [])"
| "truthy (PInt n) = (n \<noteq> 0)"

text \<open>
  The exceptions that cross the functions modelled here. All of them are subclasses of
  \<^verbatim>\<open>Exception\<close>. \<^verbatim>\<open>OtherError\<close> stands for every other subclass (network errors,
  \<^verbatim>\<open>BackendError\<close>, JSON decoding errors, ...).
\<close>

datatype exn =
    AuthenticationRequired
  | AccessDenied
  | UnknownError
  | KeyError string
  | ValueError
  | OverflowError
  | TypeError
  | OtherError string

text \<open>The two kinds caught by \<^verbatim>\<open>except (AccessDenied, AuthenticationRequired)\<close>.\<close>

fun is_auth_error :: "exn \<Rightarrow> bool" where
  "is_auth_error AuthenticationRequired = True"
| "is_auth_error AccessDenied = True"
| "is_auth_error _ = False"

text \<open>
  The outcome of a call: a returned value, a raised exception, or \<^verbatim>\<open>Pending\<close> for a
  coroutine that is still suspended in the polling loop of \<^verbatim>\<open>_refresh_auth\<close> when the
  observation ends.
\<close>

datatype 'a outcome = Return 'a | Raise exn | Pending

type_synonym pydict = "string \<rightharpoonup> pyval"

text \<open>\<^verbatim>\<open>data[k]\<close>: a missing key raises \<^verbatim>\<open>KeyError\<close>.\<close>

definition subscript :: "pydict \<Rightarrow> string \<Rightarrow> exn + pyval" where
  "subscript d k = (case d k of None \<Rightarrow> Inl (KeyError k) | Some v \<Rightarrow> Inr v)"

text \<open>\<^verbatim>\<open>data.get(k)\<close> and \<^verbatim>\<open>data.get(k, default)\<close>.\<close>

definition dict_get :: "pydict \<Rightarrow> string \<Rightarrow> pyval" where
  "dict_get d k = (case d k of None \<Rightarrow> PNone | Some v \<Rightarrow> v)"

definition dict_get_default :: "pydict \<Rightarrow> string \<Rightarrow> pyval \<Rightarrow> pyval" where
  "dict_get_default d k dflt = (case d k of None \<Rightarrow> dflt | Some v \<Rightarrow> v)"

subsection \<open>\<^verbatim>\<open>str()\<close> of a value, as used by the f-strings\<close>

definition digit_char :: "nat \<Rightarrow> char" where
  "digit_char d = char_of (48 + d)"

function string_of_nat :: "nat \<Rightarrow> string" where
  "string_of_nat n = (if n < 10 then [digit_char n] else string_of_nat (n div 10) @ [digit_char (n mod 10)])"
  by pat_completeness auto
termination
  by (relation "measure id") auto

declare string_of_nat.simps [simp del]

definition string_of_int :: "int \<Rightarrow> string" where
  "string_of_int i = (if i < 0 then CHR ''-'' # string_of_nat (nat (- i)) else string_of_nat (nat i))"

fun py_str :: "pyval \<Rightarrow> string" where
  "py_str PNone = ''None''"
| "py_str (PStr s) = s"
| "py_str (PInt n) = string_of_int n"

section \<open>The client\<close>

text \<open>
  \<^verbatim>\<open>CLUB_APPID\<close> and \<^verbatim>\<open>CHROME_USERAGENT\<close> are imported from the module \<^verbatim>\<open>consts\<close>;
  their values are parameters of the model.
\<close>

record constants =
  CLUB_APPID :: string
  CHROME_USERAGENT :: string

text \<open>
  What the client does to the outside world, in the order in which it does it:
  an HTTP request with its method, URL and the headers sent; a call of the registered
  auth-lost callback; a call of \<^verbatim>\<open>plugin.store_credentials\<close> with the bundle given;
  an assignment to the refresh-in-progress flag; an entry into \<^verbatim>\<open>_refresh_auth\<close>;
  and the two \<^verbatim>\<open>log.debug\<close> calls of the exception handlers of \<^verbatim>\<open>_do_request_safe\<close>.
  The other logging calls have no effect on the client and are left out.
\<close>

datatype event =
    EvHttp string string pydict
  | EvAuthLost
  | EvStore pydict
  | EvFlag bool
  | EvRefreshAuth
  | EvLogAuthLost exn
  | EvLogFailed exn

text \<open>
  The dictionaries used as headers are mutable objects that can be shared
  (\<^verbatim>\<open>kwargs['headers'] = self._session.headers\<close>), so they live in a store:
  \<open>heap\<close> maps an address to the dictionary stored there, \<open>fresh\<close> is the next unused
  address, and \<open>session_headers\<close> is the address held by \<^verbatim>\<open>self._session.headers\<close>.
  \<open>auth_lost_callback\<close> tells whether a callback is registered; its calls are events.
  \<open>http_calls\<close> and \<open>clock_reads\<close> count the requests sent and the readings of
  \<^verbatim>\<open>datetime.now()\<close>, and index the environment's answers.
\<close>

type_synonym addr = nat

record client =
  auth_lost_callback :: bool
  token :: pyval
  session_id :: pyval
  refresh_token :: pyval
  refresh_time :: pyval
  user_id :: pyval
  user_name :: pyval
  refresh_in_progress :: bool
  session_headers :: addr
  heap :: "addr \<Rightarrow> pydict"
  fresh :: addr
  trace :: "event list"
  http_calls :: nat
  clock_reads :: nat

text \<open>Allocation of a new dictionary object (a dict display \<^verbatim>\<open>{...}\<close>).\<close>

definition alloc :: "pydict \<Rightarrow> client \<Rightarrow> addr \<times> client" where
  "alloc d s = (fresh s, s\<lparr>heap := (heap s)(fresh s := d), fresh := Suc (fresh s)\<rparr>)"

definition emit :: "event \<Rightarrow> client \<Rightarrow> client" where
  "emit e s = s\<lparr>trace := trace s @ [e]\<rparr>"

text \<open>\<^verbatim>\<open>BackendClient.__init__\<close>.\<close>

definition init :: "constants \<Rightarrow> client" where
  "init K =
    \<lparr>auth_lost_callback = False,
     token = PNone, session_id = PNone, refresh_token = PNone, refresh_time = PNone,
     user_id = PNone, user_name = PNone,
     refresh_in_progress = False,
     session_headers = 0,
     heap = (\<lambda>_. Map.empty)(0 :=
        [''Authorization'' \<mapsto> PNone,
         ''Ubi-AppId'' \<mapsto> PStr (CLUB_APPID K),
         ''User-Agent'' \<mapsto> PStr (CHROME_USERAGENT K),
         ''Ubi-SessionId'' \<mapsto> PNone]),
     fresh = 1,
     trace = [],
     http_calls = 0,
     clock_reads = 0\<rparr>"


definition is_authenticated :: "client \<Rightarrow> bool" where
  "is_authenticated s = (token s \<noteq> PNone)"

text \<open>The ticket and the session id are both present or both absent.\<close>

definition both_or_neither :: "client \<Rightarrow> bool" where
  "both_or_neither s = ((token s = PNone) = (session_id s = PNone))"

text \<open>The dictionary currently behind \<^verbatim>\<open>self._session.headers\<close>.\<close>

definition default_headers :: "client \<Rightarrow> pydict" where
  "default_headers s = heap s (session_headers s)"

subsection \<open>\<^verbatim>\<open>restore_credentials\<close>\<close>

text \<open>
  The assignments happen one after the other, so an exception raised by a missing
  required key leaves the assignments before it in place: the function returns the
  client as it is when the function is left, on both paths.
\<close>

definition restore_credentials :: "constants \<Rightarrow> pydict \<Rightarrow> client \<Rightarrow> unit outcome \<times> client" where
  "restore_credentials K data s0 =
    (case subscript data ''ticket'' of
       Inl e \<Rightarrow> (Raise e, s0)
     | Inr t \<Rightarrow>
    let s1 = s0\<lparr>token := t\<rparr> in
    (case subscript data ''sessionId'' of
       Inl e \<Rightarrow> (Raise e, s1)
     | Inr sid \<Rightarrow>
    let s2 = s1\<lparr>session_id := sid\<rparr> in
    (case subscript data ''userId'' of
       Inl e \<Rightarrow> (Raise e, s2)
     | Inr uid \<Rightarrow>
    let s3 = s2\<lparr>user_id := uid\<rparr>;
        s4 = (if truthy (dict_get data ''username'')
              then s3\<lparr>user_name := dict_get data ''username''\<rparr> else s3);
        s5 = s4\<lparr>refresh_time := dict_get_default data ''refreshTime'' (PStr ''0'')\<rparr>;
        s6 = (if truthy (dict_get data ''rememberMeTicket'')
              then s5\<lparr>refresh_token := dict_get data ''rememberMeTicket''\<rparr> else s5);
        (a, s7) = alloc
           [''Ubi-AppId'' \<mapsto> PStr (CLUB_APPID K),
            ''Authorization'' \<mapsto> PStr (''Ubi_v1 t='' @ py_str (token s6)),
            ''Ubi-SessionId'' \<mapsto> session_id s6] s6
    in (Return (), s7\<lparr>session_headers := a\<rparr>))))"

text \<open>\<^verbatim>\<open>get_credentials\<close>.\<close>

definition get_credentials :: "client \<Rightarrow> pydict" where
  "get_credentials s =
    (let creds = [''ticket'' \<mapsto> token s,
                  ''sessionId'' \<mapsto> session_id s,
                  ''rememberMeTicket'' \<mapsto> refresh_token s,
                  ''userId'' \<mapsto> user_id s,
                  ''refreshTime'' \<mapsto> refresh_time s]
     in if truthy (user_name s) then creds(''username'' \<mapsto> user_name s) else creds)"

subsection \<open>The environment\<close>

text \<open>
  Everything the client reads from outside is a parameter:
  \<^item> \<open>http k\<close> is the outcome of the \<open>k\<close>-th request sent (\<^verbatim>\<open>self.request\<close> followed by
    \<^verbatim>\<open>r.json()\<close>): the JSON object of the response, or the exception that
    \<^verbatim>\<open>handle_exception\<close> or the decoding raises;
  \<^item> \<open>clock k\<close> is the \<open>k\<close>-th reading of \<^verbatim>\<open>datetime.now()\<close>, in microseconds since the
    epoch;
  \<^item> \<open>parse\<close> is \<^verbatim>\<open>dateutil.parser.parse\<close>: the parsed datetime as a pair of its
    awareness (whether it carries a time zone) and its value in microseconds;
  \<^item> \<open>store\<close> is \<^verbatim>\<open>plugin.store_credentials\<close>: the exception it raises, if any;
  \<^item> \<open>others k\<close> is what the other coroutines of the event loop do to the client during
    the \<open>k\<close>-th \<^verbatim>\<open>asyncio.sleep(0.2)\<close> of the polling loop;
  \<^item> \<open>max_sleeps\<close> is the number of sleeps after which the observation of a polling
    coroutine ends.
\<close>

record env =
  http :: "nat \<Rightarrow> exn + pydict"
  clock :: "nat \<Rightarrow> int"
  parse :: "pyval \<Rightarrow> exn + (bool \<times> int)"
  store :: "pydict \<Rightarrow> exn option"
  others :: "nat \<Rightarrow> client \<Rightarrow> client"
  max_sleeps :: nat

text \<open>Sequencing: an exception or a pending call ends the block.\<close>

definition on_value :: "exn + 'a \<Rightarrow> client \<Rightarrow> ('a \<Rightarrow> 'b outcome \<times> client) \<Rightarrow> 'b outcome \<times> client" where
  "on_value r s f = (case r of Inl e \<Rightarrow> (Raise e, s) | Inr v \<Rightarrow> f v)"

definition and_then :: "'a outcome \<times> client \<Rightarrow> ('a \<Rightarrow> client \<Rightarrow> 'b outcome \<times> client) \<Rightarrow> 'b outcome \<times> client" where
  "and_then m f =
    (case m of
       (Return v, s) \<Rightarrow> f v s
     | (Raise e, s) \<Rightarrow> (Raise e, s)
     | (Pending, s) \<Rightarrow> (Pending, s))"

subsection \<open>\<^verbatim>\<open>_do_request\<close>\<close>

text \<open>
  \<open>hdrs\<close> is the \<^verbatim>\<open>headers\<close> keyword argument (the address of the caller's dictionary)
  and \<open>add\<close> the \<^verbatim>\<open>add_to_headers\<close> one (its items in iteration order), \<open>None\<close> when
  the caller gives none. Without \<^verbatim>\<open>headers\<close> the dictionary written to and sent is the
  object behind \<^verbatim>\<open>self._session.headers\<close> itself. The JSON body of a request is not
  recorded in the event.
\<close>

definition add_headers :: "(string \<times> pyval) list \<Rightarrow> pydict \<Rightarrow> pydict" where
  "add_headers kvs d = fold (\<lambda>(k, v) m. m(k \<mapsto> v)) kvs d"

definition do_request ::
  "env \<Rightarrow> string \<Rightarrow> string \<Rightarrow> addr option \<Rightarrow> (string \<times> pyval) list option \<Rightarrow> client
    \<Rightarrow> pydict outcome \<times> client" where
  "do_request E method url hdrs add s0 =
    (let h = (case hdrs of None \<Rightarrow> session_headers s0 | Some a \<Rightarrow> a);
         s1 = (case add of None \<Rightarrow> s0
               | Some kvs \<Rightarrow> s0\<lparr>heap := (heap s0)(h := add_headers kvs (heap s0 h))\<rparr>);
         s2 = emit (EvHttp method url (heap s1 h)) s1;
         s3 = s2\<lparr>http_calls := Suc (http_calls s2)\<rparr>
     in case http E (http_calls s2) of
          Inl e \<Rightarrow> (Raise e, s3)
        | Inr j \<Rightarrow> (Return j, s3))"

subsection \<open>Dates and numbers\<close>

text \<open>
  A \<^verbatim>\<open>datetime\<close> is its number of microseconds since the epoch; the local time zone is
  taken to have the UTC offset 0 throughout, so that the order of two naive local
  datetimes is the order of their instants. The type covers the years 1 to 9999.
\<close>

definition datetime_min :: int where
  "datetime_min = - 62135596800 * 1000000"

definition datetime_max :: int where
  "datetime_max = 253402300799 * 1000000 + 999999"

definition in_datetime_range :: "int \<Rightarrow> bool" where
  "in_datetime_range u = (datetime_min \<le> u \<and> u \<le> datetime_max)"

text \<open>\<^verbatim>\<open>datetime.fromtimestamp(t)\<close> for an integer \<open>t\<close>.\<close>

definition fromtimestamp :: "int \<Rightarrow> exn + int" where
  "fromtimestamp t =
    (if in_datetime_range (t * 1000000) then Inr (t * 1000000)
     else if - (2 ^ 63) \<le> t \<and> t < 2 ^ 63 then Inl ValueError
     else Inl OverflowError)"

text \<open>\<^verbatim>\<open>a - b\<close> on datetimes: a naive and an aware one do not subtract.\<close>

definition datetime_sub :: "bool \<times> int \<Rightarrow> bool \<times> int \<Rightarrow> exn + int" where
  "datetime_sub a b = (if fst a = fst b then Inr (snd a - snd b) else Inl TypeError)"

text \<open>\<^verbatim>\<open>d + delta\<close> on a datetime and a timedelta.\<close>

definition datetime_add :: "int \<Rightarrow> int \<Rightarrow> exn + int" where
  "datetime_add d delta =
    (if in_datetime_range (d + delta) then Inr (d + delta) else Inl OverflowError)"

text \<open>
  \<^verbatim>\<open>round(d.timestamp())\<close>: the nearest whole second, a tie going to the even one.
  The computation is exact here; the floating-point one of Python agrees with it as long
  as the float nearest to the timestamp is closer to it than half a microsecond, which
  holds for every instant before the year 2500.
\<close>

definition round_timestamp :: "int \<Rightarrow> int" where
  "round_timestamp u =
    (let q = u div 1000000; r = u mod 1000000
     in if r < 500000 then q
        else if r > 500000 then q + 1
        else if even q then q else q + 1)"

text \<open>
  \<^verbatim>\<open>int(x)\<close>. On a string: optional white space around, an optional sign, and decimal
  digits in which single underscores may separate digits (ASCII only).
\<close>

definition is_space :: "char \<Rightarrow> bool" where
  "is_space c = ((of_char c :: nat) \<in> {9, 10, 11, 12, 13, 28, 29, 30, 31, 32})"

definition is_digit :: "char \<Rightarrow> bool" where
  "is_digit c = (48 \<le> (of_char c :: nat) \<and> (of_char c :: nat) \<le> 57)"

definition digit_val :: "char \<Rightarrow> nat" where
  "digit_val c = of_char c - 48"

fun more_digits :: "nat \<Rightarrow> string \<Rightarrow> nat option" where
  "more_digits acc [] = Some acc"
| "more_digits acc [c] = (if is_digit c then Some (10 * acc + digit_val c) else None)"
| "more_digits acc (c # d # cs) =
     (if is_digit c then more_digits (10 * acc + digit_val c) (d # cs)
      else if c = CHR ''_'' \<and> is_digit d then more_digits acc (d # cs)
      else None)"

definition digits :: "string \<Rightarrow> nat option" where
  "digits s = (case s of [] \<Rightarrow> None | c # cs \<Rightarrow> if is_digit c then more_digits 0 s else None)"

definition strip :: "string \<Rightarrow> string" where
  "strip s = rev (dropWhile is_space (rev (dropWhile is_space s)))"

definition int_of_str :: "string \<Rightarrow> exn + int" where
  "int_of_str s =
    (let t = strip s;
         (neg, ds) = (case t of
                        [] \<Rightarrow> (False, [])
                      | c # cs \<Rightarrow> if c = CHR ''-'' then (True, cs)
                                  else if c = CHR ''+'' then (False, cs) else (False, t))
     in case digits ds of
          None \<Rightarrow> Inl ValueError
        | Some n \<Rightarrow> Inr (if neg then - int n else int n))"

fun py_int :: "pyval \<Rightarrow> exn + int" where
  "py_int PNone = Inl TypeError"
| "py_int (PInt n) = Inr n"
| "py_int (PStr s) = int_of_str s"

subsection \<open>\<^verbatim>\<open>_handle_authorization_response\<close>\<close>

text \<open>
  Python evaluates \<^verbatim>\<open>datetime.now()\<close> first, then the two subscripts and parses from
  left to right, the subtraction and the addition. The rounded timestamp is written
  into \<^verbatim>\<open>j\<close> before \<^verbatim>\<open>restore_credentials(j)\<close>.
\<close>

definition handle_authorization_response ::
  "env \<Rightarrow> constants \<Rightarrow> pydict \<Rightarrow> client \<Rightarrow> unit outcome \<times> client" where
  "handle_authorization_response E K j s0 =
    (let now = clock E (clock_reads s0);
         s = s0\<lparr>clock_reads := Suc (clock_reads s0)\<rparr>
     in on_value (subscript j ''expiration'') s (\<lambda>ev.
        on_value (parse E ev) s (\<lambda>expiration.
        on_value (subscript j ''serverTime'') s (\<lambda>sv.
        on_value (parse E sv) s (\<lambda>serverTime.
        on_value (datetime_sub expiration serverTime) s (\<lambda>delta.
        on_value (datetime_add now delta) s (\<lambda>refresh_time.
        restore_credentials K (j(''refreshTime'' \<mapsto> PInt (round_timestamp refresh_time))) s)))))))"

subsection \<open>The two-phase refresh\<close>

definition sessions_url :: string where
  "sessions_url = ''https://public-ubiservices.ubi.com/v3/profiles/sessions''"

definition do_options_request :: "env \<Rightarrow> constants \<Rightarrow> client \<Rightarrow> unit outcome \<times> client" where
  "do_options_request E K s0 =
    (let (a, s1) = alloc
           [''Origin'' \<mapsto> PStr ''https://connect.ubisoft.com'',
            ''Referer'' \<mapsto> PStr ''https://connect.ubisoft.com/login?appId=314d4fef-e568-454a-ae06-43e3bece12a6'',
            ''User-Agent'' \<mapsto> PStr (CHROME_USERAGENT K)] s0
     in and_then (do_request E ''options'' sessions_url (Some a) None s1)
          (\<lambda>_ s2. (Return (), s2)))"

text \<open>The headers of the two refresh requests differ in \<^verbatim>\<open>Authorization\<close> only.\<close>

definition refresh_headers :: "constants \<Rightarrow> string \<Rightarrow> pydict" where
  "refresh_headers K authorization =
    [''Accept'' \<mapsto> PStr ''*/*'',
     ''Accept-Encoding'' \<mapsto> PStr ''gzip, deflate, br'',
     ''Accept-Language'' \<mapsto> PStr ''en-US;en;q=0.5'',
     ''Authorization'' \<mapsto> PStr authorization,
     ''Content-Type'' \<mapsto> PStr ''application/json'',
     ''Ubi-AppId'' \<mapsto> PStr (CLUB_APPID K),
     ''User-Agent'' \<mapsto> PStr (CHROME_USERAGENT K),
     ''Host'' \<mapsto> PStr ''public-ubiservices.ubi.com'',
     ''Origin'' \<mapsto> PStr ''https://connect.ubisoft.com'',
     ''Referer'' \<mapsto> PStr ''https://connect.ubisoft.com'']"

definition refresh_remember_me :: "env \<Rightarrow> constants \<Rightarrow> client \<Rightarrow> unit outcome \<times> client" where
  "refresh_remember_me E K s0 =
    and_then (do_options_request E K s0) (\<lambda>_ s1.
      let (a, s2) = alloc (refresh_headers K (''rm_v1 t='' @ py_str (refresh_token s1))) s1
      in and_then (do_request E ''post'' sessions_url (Some a) None s2)
           (\<lambda>j s3. handle_authorization_response E K j s3))"

definition refresh_ticket :: "env \<Rightarrow> constants \<Rightarrow> client \<Rightarrow> unit outcome \<times> client" where
  "refresh_ticket E K s0 =
    and_then (do_options_request E K s0) (\<lambda>_ s1.
      let (a, s2) = alloc (refresh_headers K (''Ubi_v1 t='' @ py_str (token s1))) s1
      in and_then (do_request E ''put'' sessions_url (Some a) None s2)
           (\<lambda>j s3. handle_authorization_response E K j s3))"

text \<open>\<^verbatim>\<open>self._plugin.store_credentials(self.get_credentials())\<close>.\<close>

definition store_credentials :: "env \<Rightarrow> client \<Rightarrow> unit outcome \<times> client" where
  "store_credentials E s =
    (let creds = get_credentials s; s1 = emit (EvStore creds) s
     in case store E creds of None \<Rightarrow> (Return (), s1) | Some e \<Rightarrow> (Raise e, s1))"

text \<open>The body of the \<^verbatim>\<open>try\<close> of \<^verbatim>\<open>_refresh_auth\<close>.\<close>

definition refresh_protocol :: "env \<Rightarrow> constants \<Rightarrow> client \<Rightarrow> unit outcome \<times> client" where
  "refresh_protocol E K s0 =
    and_then (refresh_remember_me E K s0) (\<lambda>_ s1.
    and_then (refresh_ticket E K s1) (\<lambda>_ s2.
    store_credentials E s2))"

subsection \<open>\<^verbatim>\<open>_refresh_auth\<close>\<close>

text \<open>
  The events and counters of a client record belong to the coroutine that is followed;
  what the other coroutines do during a sleep changes the rest of the record only.
  The other coroutines are given a turn at the sleeps of the polling loop. While the
  owner of a refresh is suspended in a request they run as well, but none of them writes
  the flag then: its only assignments are the two of the owner's branch of
  \<^verbatim>\<open>_refresh_auth\<close>, which no other caller enters while the flag is set.
\<close>

definition interfere :: "env \<Rightarrow> nat \<Rightarrow> client \<Rightarrow> client" where
  "interfere E k s =
    (others E k s)\<lparr>trace := trace s, http_calls := http_calls s, clock_reads := clock_reads s\<rparr>"

text \<open>
  \<^verbatim>\<open>while self.__refresh_in_progress: await asyncio.sleep(0.2)\<close>. The loop has no
  bound of its own: \<open>n\<close> is the number of sleeps still observed, \<open>k\<close> the number of
  sleeps done, and the call is \<open>Pending\<close> when the flag is still set after the last
  observed sleep.
\<close>

fun wait_loop :: "env \<Rightarrow> nat \<Rightarrow> nat \<Rightarrow> client \<Rightarrow> unit outcome \<times> client" where
  "wait_loop E 0 k s = (if refresh_in_progress s then (Pending, s) else (Return (), s))"
| "wait_loop E (Suc n) k s =
     (if refresh_in_progress s then wait_loop E n (Suc k) (interfere E k s)
      else (Return (), s))"

text \<open>
  The owner's branch in two parts: taking the flag, which happens without suspension
  on entry, and the \<^verbatim>\<open>try ... finally\<close>, in which the owner is suspended at every
  request.
\<close>

definition claim_refresh :: "client \<Rightarrow> client" where
  "claim_refresh s = emit (EvFlag True) (s\<lparr>refresh_in_progress := True\<rparr>)"

definition release_refresh :: "client \<Rightarrow> client" where
  "release_refresh s = emit (EvFlag False) (s\<lparr>refresh_in_progress := False\<rparr>)"

definition complete_refresh :: "env \<Rightarrow> constants \<Rightarrow> client \<Rightarrow> unit outcome \<times> client" where
  "complete_refresh E K s =
    (let (r, s') = refresh_protocol E K s in (r, release_refresh s'))"

definition refresh_auth :: "env \<Rightarrow> constants \<Rightarrow> client \<Rightarrow> unit outcome \<times> client" where
  "refresh_auth E K s0 =
    (let s = emit EvRefreshAuth s0
     in if refresh_in_progress s then wait_loop E (max_sleeps E) 0 s
        else complete_refresh E K (claim_refresh s))"

subsection \<open>\<^verbatim>\<open>_do_request_safe\<close>\<close>

text \<open>
  The computation of \<^verbatim>\<open>refresh_needed\<close>. The clock is read only when the right operand
  of \<^verbatim>\<open>or\<close> is evaluated, and before \<^verbatim>\<open>int(self.refresh_time)\<close>.
\<close>

definition refresh_needed :: "env \<Rightarrow> client \<Rightarrow> (exn + bool) \<times> client" where
  "refresh_needed E s =
    (if \<not> truthy (refresh_token s) then
       if refresh_time s = PNone then (Inr True, s)
       else
         let now = clock E (clock_reads s);
             s1 = s\<lparr>clock_reads := Suc (clock_reads s)\<rparr>
         in case py_int (refresh_time s) of
              Inl e \<Rightarrow> (Inl e, s1)
            | Inr t \<Rightarrow>
                (case fromtimestamp t of
                   Inl e \<Rightarrow> (Inl e, s1)
                 | Inr expiry \<Rightarrow> (Inr (now > expiry), s1))
     else (Inr False, s))"

text \<open>The body of the outer \<^verbatim>\<open>try\<close>.\<close>

definition request_with_refresh ::
  "env \<Rightarrow> constants \<Rightarrow> string \<Rightarrow> string \<Rightarrow> addr option \<Rightarrow> (string \<times> pyval) list option \<Rightarrow> client
    \<Rightarrow> pydict outcome \<times> client" where
  "request_with_refresh E K method url hdrs add s0 =
    (case refresh_needed E s0 of
       (Inl e, s1) \<Rightarrow> (Raise e, s1)
     | (Inr True, s1) \<Rightarrow>
         and_then (refresh_auth E K s1) (\<lambda>_ s2. do_request E method url hdrs add s2)
     | (Inr False, s1) \<Rightarrow>
         (case do_request E method url hdrs add s1 of
            (Raise e, s2) \<Rightarrow>
              if is_auth_error e
              then and_then (refresh_auth E K s2) (\<lambda>_ s3. do_request E method url hdrs add s3)
              else (Raise e, s2)
          | (r, s2) \<Rightarrow> (r, s2)))"

definition do_request_safe ::
  "env \<Rightarrow> constants \<Rightarrow> string \<Rightarrow> string \<Rightarrow> addr option \<Rightarrow> (string \<times> pyval) list option \<Rightarrow> client
    \<Rightarrow> pydict outcome \<times> client" where
  "do_request_safe E K method url hdrs add s0 =
    (case request_with_refresh E K method url hdrs add s0 of
       (Raise e, s) \<Rightarrow>
         if is_auth_error e then
           let s1 = emit (EvLogAuthLost e) s;
               s2 = (if auth_lost_callback s1 then emit EvAuthLost s1 else s1)
           in (Raise e, s2)
         else (Raise e, emit (EvLogFailed e) s)
     | (r, s) \<Rightarrow> (r, s))"

section \<open>Events of a call\<close>

text \<open>
  The events that a call has added to the trace; the kinds of events: those of the
  two-phase protocol (requests and the storing of the credentials), those emitted
  inside \<^verbatim>\<open>_refresh_auth\<close> after its entry, and those of the exception handlers of
  \<^verbatim>\<open>_do_request_safe\<close>.
\<close>

definition new_events :: "client \<Rightarrow> client \<Rightarrow> event list" where
  "new_events s s' = drop (length (trace s)) (trace s')"

fun protocol_event :: "event \<Rightarrow> bool" where
  "protocol_event (EvHttp m u h) = True"
| "protocol_event (EvStore c) = True"
| "protocol_event _ = False"

fun inner_event :: "event \<Rightarrow> bool" where
  "inner_event (EvHttp m u h) = True"
| "inner_event (EvStore c) = True"
| "inner_event (EvFlag b) = True"
| "inner_event _ = False"


text \<open>
  A step from \<open>s\<close> to \<open>s'\<close> of the two-phase protocol adds protocol events only and
  leaves the refresh-in-progress flag and the registered callback as they are.
\<close>

definition emits :: "(event \<Rightarrow> bool) \<Rightarrow> client \<Rightarrow> client \<Rightarrow> bool" where
  "emits P s s' = (\<exists>evs. trace s' = trace s @ evs \<and> (\<forall>e \<in> set evs. P e))"

definition keeps :: "client \<Rightarrow> client \<Rightarrow> bool" where
  "keeps s s' =
    (refresh_in_progress s' = refresh_in_progress s \<and> auth_lost_callback s' = auth_lost_callback s)"

definition step_ok :: "client \<Rightarrow> client \<Rightarrow> bool" where
  "step_ok s s' = (emits protocol_event s s' \<and> keeps s s')"

text \<open>The client as the polling loop finds it after \<open>j\<close> sleeps, the first being the \<open>k\<close>-th.\<close>

fun sleeps_from :: "env \<Rightarrow> nat \<Rightarrow> nat \<Rightarrow> client \<Rightarrow> client" where
  "sleeps_from E k 0 s = s"
| "sleeps_from E k (Suc j) s = sleeps_from E (Suc k) j (interfere E k s)"

section \<open>Sequences of requests\<close>

text \<open>
  A sequence of calls of \<^verbatim>\<open>_do_request\<close> without a \<^verbatim>\<open>headers\<close> argument, each with its
  method, its URL and its \<^verbatim>\<open>add_to_headers\<close> argument; \<open>added_keys\<close> are the header names
  that the calls of the sequence add; \<open>sends k v e\<close> says that the request of the event
  \<open>e\<close> carries the header \<open>k\<close> with the value \<open>v\<close>.
\<close>

fun do_requests ::
  "env \<Rightarrow> (string \<times> string \<times> (string \<times> pyval) list option) list \<Rightarrow> client \<Rightarrow> client" where
  "do_requests E [] s = s"
| "do_requests E ((method, url, add) # rs) s =
     do_requests E rs (snd (do_request E method url None add s))"

fun added_keys :: "(string \<times> string \<times> (string \<times> pyval) list option) list \<Rightarrow> string set" where
  "added_keys [] = {}"
| "added_keys ((method, url, add) # rs) =
     (case add of None \<Rightarrow> {} | Some kvs \<Rightarrow> fst ` set kvs) \<union> added_keys rs"

fun sends :: "string \<Rightarrow> pyval \<Rightarrow> event \<Rightarrow> bool" where
  "sends k v (EvHttp m u h) = (h k = Some v)"
| "sends k v _ = True"

section \<open>Concrete inputs\<close>

definition K0 :: constants where
  "K0 = \<lparr>CLUB_APPID = ''app-id'', CHROME_USERAGENT = ''Mozilla/5.0''\<rparr>"

definition full_bundle :: pydict where
  "full_bundle =
    [''ticket'' \<mapsto> PStr ''T1'', ''sessionId'' \<mapsto> PStr ''S1'', ''userId'' \<mapsto> PStr ''U1'',
     ''username'' \<mapsto> PStr ''alice'', ''rememberMeTicket'' \<mapsto> PStr ''R1'',
     ''refreshTime'' \<mapsto> PInt 1700000000]"

text \<open>A bundle with the required keys only.\<close>

definition partial_bundle :: pydict where
  "partial_bundle =
    [''ticket'' \<mapsto> PStr ''T2'', ''sessionId'' \<mapsto> PStr ''S2'', ''userId'' \<mapsto> PStr ''U1'']"

text \<open>A bundle without \<^verbatim>\<open>sessionId\<close>.\<close>

definition ticket_only_bundle :: pydict where
  "ticket_only_bundle = [''ticket'' \<mapsto> PStr ''T3'']"

text \<open>The client after \<^verbatim>\<open>restore_credentials(full_bundle)\<close> on a new client.\<close>

definition populated :: client where
  "populated = snd (restore_credentials K0 full_bundle (init K0))"

text \<open>
  A server whose clock reads 22:13:20 (1700000000 seconds after the epoch) and whose
  session expires an hour later, and a local clock that is 123.4 seconds ahead of it.
\<close>

definition parse_iso :: "pyval \<Rightarrow> exn + (bool \<times> int)" where
  "parse_iso v =
    (if v = PStr ''2023-11-14T22:13:20.000Z'' then Inr (True, 1700000000000000)
     else if v = PStr ''2023-11-14T23:13:20.000Z'' then Inr (True, 1700003600000000)
     else Inl ValueError)"

definition auth_response :: pydict where
  "auth_response =
    [''ticket'' \<mapsto> PStr ''T9'', ''sessionId'' \<mapsto> PStr ''S9'', ''userId'' \<mapsto> PStr ''U1'',
     ''rememberMeTicket'' \<mapsto> PStr ''R9'',
     ''expiration'' \<mapsto> PStr ''2023-11-14T23:13:20.000Z'',
     ''serverTime'' \<mapsto> PStr ''2023-11-14T22:13:20.000Z'']"

definition E_ok :: env where
  "E_ok =
    \<lparr>http = (\<lambda>_. Inr auth_response), clock = (\<lambda>_. 1700000123400000), parse = parse_iso,
     store = (\<lambda>_. None), others = (\<lambda>_ s. s), max_sleeps = 0\<rparr>"

text \<open>The headers that \<^verbatim>\<open>get_game_stats\<close> passes as \<^verbatim>\<open>add_to_headers\<close>.\<close>

definition stats_headers :: "(string \<times> pyval) list" where
  "stats_headers =
    [(''Ubi-RequestedPlatformType'', PStr ''uplay''), (''Ubi-LocaleCode'', PStr ''en-GB'')]"

text \<open>A server that answers every request with 401, and one that cannot be reached.\<close>

definition E_denied :: env where
  "E_denied = E_ok\<lparr>http := (\<lambda>_. Inl AuthenticationRequired)\<rparr>"

definition E_broken :: env where
  "E_broken = E_ok\<lparr>http := (\<lambda>_. Inl (OtherError ''timeout''))\<rparr>"

text \<open>A server that rejects the first request and accepts the following ones.\<close>

definition E_expired :: env where
  "E_expired = E_ok\<lparr>http := (\<lambda>k. if k = 0 then Inl AuthenticationRequired else Inr auth_response)\<rparr>"

text \<open>
  The client as a second caller finds it while the owner of a refresh is suspended in
  its first request, and the environment of that caller: during its first sleep the
  owner runs to its end, against the server that answers 401.
\<close>

definition refreshing :: client where
  "refreshing = populated\<lparr>refresh_in_progress := True\<rparr>"

definition E_waiter :: env where
  "E_waiter = E_ok\<lparr>others := (\<lambda>k s. snd (complete_refresh E_denied K0 s)), max_sleeps := 1\<rparr>"

definition friends_url :: string where
  "friends_url = ''https://api-ubiservices.ubi.com/v2/profiles/me/friends''"




section \<open>Properties\<close>

text \<open>The definitions that the evaluation of a concrete call unfolds.\<close>

lemmas restore_defs =
  restore_credentials_def subscript_def dict_get_def dict_get_default_def alloc_def Let_def

lemmas bundle_defs =
  K0_def full_bundle_def partial_bundle_def ticket_only_bundle_def populated_def init_def

lemmas request_defs = do_request_def emit_def default_headers_def add_headers_def

lemmas eval_defs =
  do_request_safe_def request_with_refresh_def refresh_needed_def
  refresh_auth_def complete_refresh_def refresh_protocol_def refresh_remember_me_def
  refresh_ticket_def do_options_request_def handle_authorization_response_def on_value_def
  store_credentials_def claim_refresh_def release_refresh_def get_credentials_def
  and_then_def request_defs restore_defs bundle_defs E_ok_def auth_response_def parse_iso_def
  datetime_sub_def datetime_add_def in_datetime_range_def datetime_min_def datetime_max_def
  fromtimestamp_def new_events_def E_denied_def E_broken_def E_expired_def friends_url_def
  sessions_url_def


subsection \<open>\<^verbatim>\<open>restore_credentials\<close>\<close>

text \<open>
  C6, as the code has it: a bundle that omits \<^verbatim>\<open>username\<close> leaves \<^verbatim>\<open>user_name\<close> as it
  was and a bundle that omits \<^verbatim>\<open>rememberMeTicket\<close> leaves \<^verbatim>\<open>refresh_token\<close> as it
  was, whether \<^verbatim>\<open>restore_credentials\<close> returns or raises; a bundle that omits
  \<^verbatim>\<open>refreshTime\<close> sets \<^verbatim>\<open>refresh_time\<close> to the string \<^verbatim>\<open>'0'\<close> when the call returns.
\<close>

theorem restore_credentials_omitted_fields:
  "(data ''username'' = None \<longrightarrow>
      user_name (snd (restore_credentials K data s)) = user_name s) \<and>
   (data ''rememberMeTicket'' = None \<longrightarrow>
      refresh_token (snd (restore_credentials K data s)) = refresh_token s) \<and>
   (data ''refreshTime'' = None \<longrightarrow> fst (restore_credentials K data s) = Return () \<longrightarrow>
      refresh_time (snd (restore_credentials K data s)) = PStr ''0'')"
  by (auto simp: restore_defs split: option.splits if_splits)

theorem restore_credentials_omitted_fields_witness:
  "user_name (snd (restore_credentials K0 partial_bundle populated)) = PStr ''alice'' \<and>
   refresh_token (snd (restore_credentials K0 partial_bundle populated)) = PStr ''R1'' \<and>
   refresh_time (snd (restore_credentials K0 partial_bundle populated)) = PStr ''0''"
proof -
  have omitted: "partial_bundle ''username'' = None" "partial_bundle ''rememberMeTicket'' = None"
    "partial_bundle ''refreshTime'' = None"
    by (simp_all add: partial_bundle_def)
  have returns: "fst (restore_credentials K0 partial_bundle populated) = Return ()"
    by (simp add: restore_defs partial_bundle_def)
  have before: "user_name populated = PStr ''alice''" "refresh_token populated = PStr ''R1''"
    by (simp_all add: restore_defs bundle_defs)
  show ?thesis
    using restore_credentials_omitted_fields [of partial_bundle K0 populated] omitted returns before
    by simp
qed

text \<open>
  C6 as stated fails for \<^verbatim>\<open>refreshTime\<close>: the stored expiry 1700000000 is replaced by
  \<^verbatim>\<open>'0'\<close> when the bundle omits the key.
\<close>

theorem restore_credentials_omitted_refreshTime_overwritten:
  "partial_bundle ''refreshTime'' = None \<and>
   refresh_time populated = PInt 1700000000 \<and>
   refresh_time (snd (restore_credentials K0 partial_bundle populated)) \<noteq> refresh_time populated"
  by (simp add: restore_defs bundle_defs)

text \<open>
  C7, as the code has it. A new client has neither ticket nor session id. The fields are
  assigned one after the other: when \<^verbatim>\<open>restore_credentials\<close> returns, \<^verbatim>\<open>token\<close> and
  \<^verbatim>\<open>session_id\<close> are the bundle's \<^verbatim>\<open>ticket\<close> and \<^verbatim>\<open>sessionId\<close>, so both are present or
  both absent exactly when that holds of the bundle's two values; when the bundle has no
  \<^verbatim>\<open>ticket\<close> the call raises and the client is unchanged.
\<close>

theorem restore_credentials_ticket_and_session:
  "both_or_neither (init K) \<and>
   (fst (restore_credentials K data s) = Return () \<longrightarrow>
      data ''ticket'' = Some (token (snd (restore_credentials K data s))) \<and>
      data ''sessionId'' = Some (session_id (snd (restore_credentials K data s))) \<and>
      (both_or_neither (snd (restore_credentials K data s)) =
         ((data ''ticket'' = Some PNone) = (data ''sessionId'' = Some PNone)))) \<and>
   (data ''ticket'' = None \<longrightarrow>
      restore_credentials K data s = (Raise (KeyError ''ticket''), s))"
  by (auto simp: restore_defs both_or_neither_def init_def split: option.splits if_splits)

theorem restore_credentials_ticket_and_session_witness:
  "fst (restore_credentials K0 full_bundle (init K0)) = Return () \<and>
   token populated = PStr ''T1'' \<and> session_id populated = PStr ''S1'' \<and>
   both_or_neither populated \<and>
   Map.empty ''ticket'' = (None :: pyval option) \<and>
   restore_credentials K0 Map.empty populated = (Raise (KeyError ''ticket''), populated)"
proof -
  have returns: "fst (restore_credentials K0 full_bundle (init K0)) = Return ()"
    by (simp add: restore_defs bundle_defs)
  have vals: "full_bundle ''ticket'' = Some (PStr ''T1'')" "full_bundle ''sessionId'' = Some (PStr ''S1'')"
    by (simp_all add: full_bundle_def)
  show ?thesis
    using restore_credentials_ticket_and_session [of K0 full_bundle "init K0"]
      restore_credentials_ticket_and_session [of K0 Map.empty populated] returns vals
    by (simp add: populated_def)
qed

text \<open>
  C7 as stated fails: on a new client, a bundle with a \<^verbatim>\<open>ticket\<close> and no \<^verbatim>\<open>sessionId\<close>
  makes \<^verbatim>\<open>restore_credentials\<close> raise after the ticket is stored, and the client left
  behind has a ticket and no session id.
\<close>

theorem restore_credentials_not_atomic:
  "both_or_neither (init K0) \<and>
   fst (restore_credentials K0 ticket_only_bundle (init K0)) = Raise (KeyError ''sessionId'') \<and>
   token (snd (restore_credentials K0 ticket_only_bundle (init K0))) = PStr ''T3'' \<and>
   session_id (snd (restore_credentials K0 ticket_only_bundle (init K0))) = PNone \<and>
   \<not> both_or_neither (snd (restore_credentials K0 ticket_only_bundle (init K0)))"
  by (simp add: restore_defs bundle_defs both_or_neither_def)

subsection \<open>The default headers\<close>

text \<open>
  C9 at a concrete input. A new client has \<^verbatim>\<open>User-Agent\<close> among its default headers.
  After \<^verbatim>\<open>restore_credentials\<close> has returned, the default headers are \<^verbatim>\<open>Ubi-AppId\<close>,
  \<^verbatim>\<open>Authorization: Ubi_v1 t=<ticket>\<close> and \<^verbatim>\<open>Ubi-SessionId\<close> and nothing else: the
  next request sent with them carries no \<^verbatim>\<open>User-Agent\<close>. The same holds after a refresh
  that has succeeded.
\<close>

theorem restore_credentials_drops_user_agent:
  "default_headers (init K0) ''User-Agent'' = Some (PStr ''Mozilla/5.0'') \<and>
   fst (restore_credentials K0 full_bundle (init K0)) = Return () \<and>
   default_headers populated =
     [''Ubi-AppId'' \<mapsto> PStr ''app-id'', ''Authorization'' \<mapsto> PStr ''Ubi_v1 t=T1'',
      ''Ubi-SessionId'' \<mapsto> PStr ''S1''] \<and>
   default_headers populated ''User-Agent'' = None \<and>
   trace (snd (do_request E_ok ''get'' ''https://api-ubiservices.ubi.com/v2/profiles/me/friends''
                 None None populated)) =
     [EvHttp ''get'' ''https://api-ubiservices.ubi.com/v2/profiles/me/friends''
        [''Ubi-AppId'' \<mapsto> PStr ''app-id'', ''Authorization'' \<mapsto> PStr ''Ubi_v1 t=T1'',
         ''Ubi-SessionId'' \<mapsto> PStr ''S1'']] \<and>
   fst (refresh_auth E_ok K0 populated) = Return () \<and>
   default_headers (snd (refresh_auth E_ok K0 populated)) =
     [''Ubi-AppId'' \<mapsto> PStr ''app-id'', ''Authorization'' \<mapsto> PStr ''Ubi_v1 t=T9'',
      ''Ubi-SessionId'' \<mapsto> PStr ''S9'']"
  by (simp add: eval_defs)

lemma add_headers_other: "k \<notin> fst ` set kvs \<Longrightarrow> add_headers kvs d k = d k"
  unfolding add_headers_def
  by (induction kvs arbitrary: d) (auto split: prod.splits)

lemma add_headers_lookup:
  "distinct (map fst kvs) \<Longrightarrow> (k, v) \<in> set kvs \<Longrightarrow> add_headers kvs d k = Some v"
proof (induction kvs arbitrary: d)
  case Nil
  then show ?case by simp
next
  case (Cons a kvs)
  obtain k' v' where a: "a = (k', v')" by (cases a)
  show ?case
  proof (cases "(k, v) \<in> set kvs")
    case True
    then show ?thesis using Cons a by (simp add: add_headers_def)
  next
    case False
    then have kv: "k' = k" "v' = v" using Cons.prems(2) a by auto
    have "k \<notin> fst ` set kvs" using Cons.prems(1) a kv by (auto simp: image_iff)
    then have "add_headers kvs (d(k \<mapsto> v)) k = (d(k \<mapsto> v)) k" by (rule add_headers_other)
    then show ?thesis using a kv by (simp add: add_headers_def)
  qed
qed

lemma do_request_default:
  "session_headers (snd (do_request E m u None add s)) = session_headers s"
  "default_headers (snd (do_request E m u None add s)) =
     (case add of None \<Rightarrow> default_headers s | Some kvs \<Rightarrow> add_headers kvs (default_headers s))"
  "trace (snd (do_request E m u None add s)) =
     trace s @ [EvHttp m u (case add of None \<Rightarrow> default_headers s
                            | Some kvs \<Rightarrow> add_headers kvs (default_headers s))]"
  by (auto simp: do_request_def default_headers_def emit_def Let_def split: option.splits sum.splits)

lemma do_requests_sends:
  "default_headers s k = Some v \<Longrightarrow> k \<notin> added_keys rs \<Longrightarrow> n \<le> length (trace s) \<Longrightarrow>
   \<forall>e \<in> set (drop n (trace s)). sends k v e \<Longrightarrow>
   \<forall>e \<in> set (drop n (trace (do_requests E rs s))). sends k v e"
proof (induction rs arbitrary: s)
  case Nil
  then show ?case by simp
next
  case (Cons r rs)
  obtain m u add where r: "r = (m, u, add)" by (cases r)
  let ?s = "snd (do_request E m u None add s)"
  have notin: "case add of None \<Rightarrow> True | Some kvs \<Rightarrow> k \<notin> fst ` set kvs" "k \<notin> added_keys rs"
    using Cons.prems(2) r by (auto split: option.splits)
  have 1: "default_headers ?s k = Some v"
    using Cons.prems(1) notin(1)
    by (auto simp: do_request_default add_headers_other split: option.splits)
  have 2: "n \<le> length (trace ?s)"
    using Cons.prems(3) by (simp add: do_request_default)
  have 3: "\<forall>e \<in> set (drop n (trace ?s)). sends k v e"
    using Cons.prems(1,3,4) notin(1)
    by (auto simp: do_request_default add_headers_other split: option.splits)
  show ?case using Cons.IH[OF 1 notin(2) 2 3] r by simp
qed

text \<open>
  C10, as the code has it. A call of \<^verbatim>\<open>_do_request\<close> with \<^verbatim>\<open>add_to_headers\<close> and without
  \<^verbatim>\<open>headers\<close> leaves \<^verbatim>\<open>self._session.headers\<close> the same object and writes the added
  headers into it. Every request from this one on that is sent by a call of
  \<^verbatim>\<open>_do_request\<close> without \<^verbatim>\<open>headers\<close> carries each added header, with the value added,
  unless a later call adds the same name again, as long as no call of
  \<^verbatim>\<open>restore_credentials\<close> comes between.
\<close>

theorem do_request_add_to_headers_in_place:
  assumes "distinct (map fst kvs)" and "(k, v) \<in> set kvs" and "k \<notin> added_keys rs"
  shows "session_headers (snd (do_request E m u None (Some kvs) s)) = session_headers s \<and>
         default_headers (snd (do_request E m u None (Some kvs) s)) =
           add_headers kvs (default_headers s) \<and>
         default_headers (snd (do_request E m u None (Some kvs) s)) k = Some v \<and>
         (\<forall>e \<in> set (drop (length (trace s))
                      (trace (do_requests E rs (snd (do_request E m u None (Some kvs) s))))).
            sends k v e)"
proof -
  let ?s = "snd (do_request E m u None (Some kvs) s)"
  have 1: "default_headers ?s k = Some v"
    using assms(1,2) by (simp add: do_request_default add_headers_lookup)
  have 2: "length (trace s) \<le> length (trace ?s)"
    by (simp add: do_request_default)
  have 3: "\<forall>e \<in> set (drop (length (trace s)) (trace ?s)). sends k v e"
    using assms(1,2) by (simp add: do_request_default add_headers_lookup)
  show ?thesis
    using do_requests_sends[OF 1 assms(3) 2 3] 1 by (simp add: do_request_default)
qed

theorem do_request_add_to_headers_in_place_witness:
  "distinct (map fst stats_headers) \<and>
   (''Ubi-LocaleCode'', PStr ''en-GB'') \<in> set stats_headers \<and>
   ''Ubi-LocaleCode'' \<notin> added_keys
      [(''get'', ''u2'', None), (''post'', ''u3'', Some [(''Content-Type'', PStr ''application/json'')])] \<and>
   default_headers (snd (do_request E_ok ''get'' ''u1'' None (Some stats_headers) populated))
      ''Ubi-LocaleCode'' = Some (PStr ''en-GB'') \<and>
   map (sends ''Ubi-LocaleCode'' (PStr ''en-GB''))
     (trace (do_requests E_ok
        [(''get'', ''u2'', None), (''post'', ''u3'', Some [(''Content-Type'', PStr ''application/json'')])]
        (snd (do_request E_ok ''get'' ''u1'' None (Some stats_headers) populated)))) =
     [True, True, True]"
proof -
  have 1: "distinct (map fst stats_headers)"
    by (simp add: stats_headers_def)
  have 2: "(''Ubi-LocaleCode'', PStr ''en-GB'') \<in> set stats_headers"
    by (simp add: stats_headers_def)
  have 3: "''Ubi-LocaleCode'' \<notin> added_keys
      [(''get'', ''u2'', None), (''post'', ''u3'', Some [(''Content-Type'', PStr ''application/json'')])]"
    by simp
  show ?thesis
    using do_request_add_to_headers_in_place [OF 1 2 3, of E_ok "''get''" "''u1''" populated] 1 2 3
    by (simp add: request_defs restore_defs bundle_defs stats_headers_def E_ok_def)
qed

text \<open>
  C10 as stated fails: the headers added by a call are no longer sent once
  \<^verbatim>\<open>restore_credentials\<close> has replaced the object behind \<^verbatim>\<open>self._session.headers\<close>.
\<close>

theorem added_headers_lost_after_restore_credentials:
  "default_headers (snd (do_request E_ok ''get'' ''u1'' None (Some stats_headers) populated))
      ''Ubi-LocaleCode'' = Some (PStr ''en-GB'') \<and>
   trace (snd (do_request E_ok ''get'' ''u2'' None None
      (snd (restore_credentials K0 partial_bundle
         (snd (do_request E_ok ''get'' ''u1'' None (Some stats_headers) populated)))))) =
    [EvHttp ''get'' ''u1''
       [''Ubi-AppId'' \<mapsto> PStr ''app-id'', ''Authorization'' \<mapsto> PStr ''Ubi_v1 t=T1'',
        ''Ubi-SessionId'' \<mapsto> PStr ''S1'', ''Ubi-RequestedPlatformType'' \<mapsto> PStr ''uplay'',
        ''Ubi-LocaleCode'' \<mapsto> PStr ''en-GB''],
     EvHttp ''get'' ''u2''
       [''Ubi-AppId'' \<mapsto> PStr ''app-id'', ''Authorization'' \<mapsto> PStr ''Ubi_v1 t=T2'',
        ''Ubi-SessionId'' \<mapsto> PStr ''S2'']]"
  by (simp add: request_defs restore_defs bundle_defs stats_headers_def E_ok_def)

subsection \<open>\<^verbatim>\<open>_handle_authorization_response\<close>\<close>






subsection \<open>Steps of the two-phase protocol\<close>

lemma emits_refl: "emits P s s"
  by (simp add: emits_def)

lemma emits_trans: "emits P s s1 \<Longrightarrow> emits P s1 s2 \<Longrightarrow> emits P s s2"
  unfolding emits_def by (metis append.assoc set_append Un_iff)

lemma emits_same: "trace s' = trace s \<Longrightarrow> emits P s s'"
  by (simp add: emits_def)

lemma emits_emit: "P e \<Longrightarrow> emits P s (emit e s)"
  by (simp add: emits_def emit_def)

lemma keeps_refl: "keeps s s"
  by (simp add: keeps_def)

lemma keeps_trans: "keeps s s1 \<Longrightarrow> keeps s1 s2 \<Longrightarrow> keeps s s2"
  by (simp add: keeps_def)

lemma step_ok_refl: "step_ok s s"
  by (simp add: step_ok_def emits_refl keeps_refl)

lemma step_ok_trans: "step_ok s s1 \<Longrightarrow> step_ok s1 s2 \<Longrightarrow> step_ok s s2"
  unfolding step_ok_def using emits_trans keeps_trans by blast

lemma and_then_ok:
  assumes "step_ok s (snd m)" and "\<And>v s1. step_ok s1 (snd (f v s1))"
  shows "step_ok s (snd (and_then m f))"
proof (cases m)
  case (Pair r s1)
  then show ?thesis using assms step_ok_trans[OF assms(1)[unfolded Pair snd_conv] assms(2)]
    by (cases r) (auto simp: and_then_def)
qed

lemma and_then_not_pending:
  assumes "fst m \<noteq> Pending" and "\<And>v s1. fst (f v s1) \<noteq> Pending"
  shows "fst (and_then m f) \<noteq> Pending"
proof (cases m)
  case (Pair r s1)
  then show ?thesis using assms by (cases r) (auto simp: and_then_def)
qed

lemma restore_ok: "step_ok s (snd (restore_credentials K data s))"
  by (auto simp: step_ok_def emits_def keeps_def restore_credentials_def subscript_def alloc_def Let_def
      split: option.splits)

lemma restore_not_pending: "fst (restore_credentials K data s) \<noteq> Pending"
  by (auto simp: restore_credentials_def subscript_def alloc_def Let_def split: option.splits)

lemma on_value_ok:
  assumes "\<And>v. step_ok s (snd (f v))"
  shows "step_ok s (snd (on_value r s f))"
  using assms by (cases r) (auto simp: on_value_def step_ok_refl)

lemma on_value_not_pending:
  assumes "\<And>v. fst (f v) \<noteq> Pending"
  shows "fst (on_value r s f) \<noteq> Pending"
  using assms by (cases r) (auto simp: on_value_def)

lemma handle_ok: "step_ok s (snd (handle_authorization_response E K j s))"
proof -
  let ?s = "s\<lparr>clock_reads := Suc (clock_reads s)\<rparr>"
  have a: "step_ok s ?s" by (simp add: step_ok_def emits_def keeps_def)
  have "step_ok ?s (snd (handle_authorization_response E K j s))"
    unfolding handle_authorization_response_def Let_def
    by (intro on_value_ok restore_ok)
  with a show ?thesis by (rule step_ok_trans)
qed

lemma handle_not_pending: "fst (handle_authorization_response E K j s) \<noteq> Pending"
  unfolding handle_authorization_response_def Let_def
  by (intro on_value_not_pending restore_not_pending)

lemma do_request_ok: "step_ok s (snd (do_request E m u hdrs add s))"
  by (auto simp: step_ok_def emits_def keeps_def do_request_def emit_def Let_def
      split: option.splits sum.splits)

lemma do_request_not_pending: "fst (do_request E m u hdrs add s) \<noteq> Pending"
  by (auto simp: do_request_def Let_def split: option.splits sum.splits)

lemma alloc_ok: "step_ok s (snd (alloc d s))"
  by (simp add: step_ok_def emits_def keeps_def alloc_def)

lemma do_request_alloc_ok: "step_ok s (snd (do_request E m u hdrs add (snd (alloc d s))))"
  by (rule step_ok_trans[OF alloc_ok do_request_ok])

lemma options_ok: "step_ok s (snd (do_options_request E K s))"
  unfolding do_options_request_def Let_def split_def
  by (rule and_then_ok, rule do_request_alloc_ok) (simp add: step_ok_refl)

lemma options_not_pending: "fst (do_options_request E K s) \<noteq> Pending"
  unfolding do_options_request_def Let_def split_def
  by (rule and_then_not_pending, rule do_request_not_pending) simp

lemma remember_me_ok: "step_ok s (snd (refresh_remember_me E K s))"
  unfolding refresh_remember_me_def Let_def split_def
  by (intro and_then_ok options_ok do_request_alloc_ok handle_ok)

lemma remember_me_not_pending: "fst (refresh_remember_me E K s) \<noteq> Pending"
  unfolding refresh_remember_me_def Let_def split_def
  by (intro and_then_not_pending options_not_pending do_request_not_pending handle_not_pending)

lemma ticket_ok: "step_ok s (snd (refresh_ticket E K s))"
  unfolding refresh_ticket_def Let_def split_def
  by (intro and_then_ok options_ok do_request_alloc_ok handle_ok)

lemma ticket_not_pending: "fst (refresh_ticket E K s) \<noteq> Pending"
  unfolding refresh_ticket_def Let_def split_def
  by (intro and_then_not_pending options_not_pending do_request_not_pending handle_not_pending)

lemma store_ok: "step_ok s (snd (store_credentials E s))"
  by (auto simp: store_credentials_def step_ok_def emits_def keeps_def emit_def Let_def split: option.splits)

lemma store_not_pending: "fst (store_credentials E s) \<noteq> Pending"
  by (auto simp: store_credentials_def Let_def split: option.splits)

lemma protocol_ok: "step_ok s (snd (refresh_protocol E K s))"
  unfolding refresh_protocol_def
  by (intro and_then_ok remember_me_ok ticket_ok store_ok)

lemma protocol_not_pending: "fst (refresh_protocol E K s) \<noteq> Pending"
  unfolding refresh_protocol_def
  by (intro and_then_not_pending remember_me_not_pending ticket_not_pending store_not_pending)


subsection \<open>\<^verbatim>\<open>_refresh_auth\<close>\<close>

lemma interfere_trace [simp]: "trace (interfere E k s) = trace s"
  "http_calls (interfere E k s) = http_calls s"
  by (simp_all add: interfere_def)

lemma wait_loop_quiet:
  "trace (snd (wait_loop E n k s)) = trace s \<and> http_calls (snd (wait_loop E n k s)) = http_calls s"
  by (induction n arbitrary: k s) auto

lemma wait_loop_no_raise: "fst (wait_loop E n k s) \<noteq> Raise e"
  by (induction n arbitrary: k s) auto

lemma wait_loop_returns:
  "(fst (wait_loop E n k s) = Return ()) = (\<exists>j \<le> n. \<not> refresh_in_progress (sleeps_from E k j s))"
proof (induction n arbitrary: k s)
  case 0
  then show ?case by simp
next
  case (Suc n)
  show ?case
  proof (cases "refresh_in_progress s")
    case False
    then have "\<not> refresh_in_progress (sleeps_from E k 0 s)" by simp
    then have "\<exists>j \<le> Suc n. \<not> refresh_in_progress (sleeps_from E k j s)" by blast
    then show ?thesis using False by simp
  next
    case True
    have "(\<exists>j \<le> Suc n. \<not> refresh_in_progress (sleeps_from E k j s)) =
          (\<exists>j \<le> n. \<not> refresh_in_progress (sleeps_from E (Suc k) j (interfere E k s)))"
    proof
      assume "\<exists>j \<le> Suc n. \<not> refresh_in_progress (sleeps_from E k j s)"
      then obtain j where j: "j \<le> Suc n" "\<not> refresh_in_progress (sleeps_from E k j s)" by blast
      with True obtain j' where "j = Suc j'" by (cases j) auto
      with j show "\<exists>j \<le> n. \<not> refresh_in_progress (sleeps_from E (Suc k) j (interfere E k s))"
        by auto
    next
      assume "\<exists>j \<le> n. \<not> refresh_in_progress (sleeps_from E (Suc k) j (interfere E k s))"
      then obtain j where "j \<le> n" "\<not> refresh_in_progress (sleeps_from E (Suc k) j (interfere E k s))"
        by blast
      then have "Suc j \<le> Suc n" "\<not> refresh_in_progress (sleeps_from E k (Suc j) s)" by auto
      then show "\<exists>j \<le> Suc n. \<not> refresh_in_progress (sleeps_from E k j s)" by blast
    qed
    then show ?thesis using True Suc.IH[of "Suc k" "interfere E k s"] by simp
  qed
qed

lemma wait_loop_clears:
  "fst (wait_loop E n k s) = Return () \<Longrightarrow> \<not> refresh_in_progress (snd (wait_loop E n k s))"
  by (induction n arbitrary: k s) (auto split: if_splits)

lemma refresh_auth_trace:
  "\<exists>evs. trace (snd (refresh_auth E K s)) = trace s @ EvRefreshAuth # evs \<and>
         (\<forall>e \<in> set evs. inner_event e)"
proof (cases "refresh_in_progress s")
  case True
  then have "refresh_auth E K s = wait_loop E (max_sleeps E) 0 (emit EvRefreshAuth s)"
    by (simp add: refresh_auth_def emit_def)
  then show ?thesis using wait_loop_quiet by (simp add: emit_def)
next
  case False
  let ?s1 = "claim_refresh (emit EvRefreshAuth s)"
  let ?p = "refresh_protocol E K ?s1"
  have o: "refresh_auth E K s = (fst ?p, release_refresh (snd ?p))"
    using False by (simp add: refresh_auth_def emit_def complete_refresh_def split_def Let_def)
  have "step_ok ?s1 (snd ?p)" by (rule protocol_ok)
  then obtain evs where evs: "trace (snd ?p) = trace ?s1 @ evs" "\<forall>e \<in> set evs. protocol_event e"
    by (auto simp: step_ok_def emits_def)
  have i: "inner_event e" if "protocol_event e" for e using that by (cases e) auto
  have "trace (snd (refresh_auth E K s)) = trace s @ EvRefreshAuth # (EvFlag True # evs @ [EvFlag False])"
    using evs(1) by (simp add: o release_refresh_def claim_refresh_def emit_def)
  moreover have "\<forall>e \<in> set (EvFlag True # evs @ [EvFlag False]). inner_event e"
    using evs(2) i by auto
  ultimately show ?thesis by blast
qed

text \<open>
  C5. A caller that enters \<^verbatim>\<open>_refresh_auth\<close> while the flag is false sets the flag
  before the first event of the two-phase protocol and clears it after the last one:
  the flag is set in the client that the protocol starts from, the outcome of the call
  is the outcome of the protocol, the events of the call
  are the entry, the setting of the flag, the events of the protocol and the clearing of
  the flag, in this order; the call ends, by returning or by raising, and the flag is
  false in the client it leaves.
\<close>

theorem refresh_auth_owner_flag:
  assumes "\<not> refresh_in_progress s"
  shows "refresh_in_progress (claim_refresh (emit EvRefreshAuth s)) \<and>
         fst (refresh_auth E K s) =
           fst (refresh_protocol E K (claim_refresh (emit EvRefreshAuth s))) \<and>
         snd (refresh_auth E K s) =
           release_refresh (snd (refresh_protocol E K (claim_refresh (emit EvRefreshAuth s)))) \<and>
         (\<exists>evs. trace (snd (refresh_auth E K s)) =
                  trace s @ [EvRefreshAuth, EvFlag True] @ evs @ [EvFlag False] \<and>
                (\<forall>e \<in> set evs. protocol_event e)) \<and>
         \<not> refresh_in_progress (snd (refresh_auth E K s)) \<and>
         fst (refresh_auth E K s) \<noteq> Pending"
proof -
  let ?s1 = "claim_refresh (emit EvRefreshAuth s)"
  let ?p = "refresh_protocol E K ?s1"
  have o: "refresh_auth E K s = (fst ?p, release_refresh (snd ?p))"
    using assms by (simp add: refresh_auth_def emit_def complete_refresh_def split_def Let_def)
  have "step_ok ?s1 (snd ?p)" by (rule protocol_ok)
  then obtain evs where evs: "trace (snd ?p) = trace ?s1 @ evs" "\<forall>e \<in> set evs. protocol_event e"
    by (auto simp: step_ok_def emits_def)
  have t: "trace (snd (refresh_auth E K s)) = trace s @ [EvRefreshAuth, EvFlag True] @ evs @ [EvFlag False]"
    using evs(1) by (simp add: o release_refresh_def claim_refresh_def emit_def)
  have f: "\<not> refresh_in_progress (snd (refresh_auth E K s))"
    by (simp add: o release_refresh_def emit_def)
  have p: "fst (refresh_auth E K s) \<noteq> Pending"
    using protocol_not_pending by (simp add: o)
  have c: "refresh_in_progress ?s1"
    by (simp add: claim_refresh_def emit_def)
  have o1: "fst (refresh_auth E K s) = fst ?p"
    by (simp add: o)
  have o2: "snd (refresh_auth E K s) = release_refresh (snd ?p)"
    by (simp add: o)
  have e: "\<exists>evs. trace (snd (refresh_auth E K s)) =
                  trace s @ [EvRefreshAuth, EvFlag True] @ evs @ [EvFlag False] \<and>
                (\<forall>e \<in> set evs. protocol_event e)"
    using t evs(2) by blast
  show ?thesis
    using c o1 o2 e f p by (intro conjI)
qed

theorem refresh_auth_owner_flag_witness:
  "\<not> refresh_in_progress populated \<and>
   fst (refresh_auth E_ok K0 populated) = Return () \<and>
   \<not> refresh_in_progress (snd (refresh_auth E_ok K0 populated)) \<and>
   fst (refresh_auth E_denied K0 populated) = Raise AuthenticationRequired \<and>
   \<not> refresh_in_progress (snd (refresh_auth E_denied K0 populated))"
proof -
  have idle: "\<not> refresh_in_progress populated"
    by (simp add: restore_defs bundle_defs)
  have ok: "fst (refresh_auth E_ok K0 populated) = Return ()"
    by (simp add: eval_defs)
  have denied: "fst (refresh_auth E_denied K0 populated) = Raise AuthenticationRequired"
    by (simp add: eval_defs)
  have released: "\<not> refresh_in_progress (snd (refresh_auth E_ok K0 populated))"
    "\<not> refresh_in_progress (snd (refresh_auth E_denied K0 populated))"
    using refresh_auth_owner_flag [OF idle, of E_ok K0]
      refresh_auth_owner_flag [OF idle, of E_denied K0]
    by blast+
  show ?thesis
    using idle ok denied released by (intro conjI)
qed

text \<open>
  C2, as the code has it. A caller that enters \<^verbatim>\<open>_refresh_auth\<close> while the flag is
  true sends no request and never raises: it returns normally exactly when it finds the
  flag cleared at one of its polls, whatever the refresh of the owner has come to, and
  is still polling otherwise.
\<close>

theorem refresh_auth_waiter:
  assumes "refresh_in_progress s"
  shows "(\<forall>e. fst (refresh_auth E K s) \<noteq> Raise e) \<and>
         trace (snd (refresh_auth E K s)) = trace s @ [EvRefreshAuth] \<and>
         http_calls (snd (refresh_auth E K s)) = http_calls s \<and>
         (fst (refresh_auth E K s) = Return () \<longleftrightarrow>
            (\<exists>j \<le> max_sleeps E. \<not> refresh_in_progress (sleeps_from E 0 j (emit EvRefreshAuth s))))"
proof -
  let ?s = "emit EvRefreshAuth s"
  have w: "refresh_auth E K s = wait_loop E (max_sleeps E) 0 ?s"
    using assms by (simp add: refresh_auth_def emit_def)
  show ?thesis
    unfolding w using wait_loop_no_raise wait_loop_quiet wait_loop_returns
    by (simp add: emit_def)
qed


theorem refresh_auth_waiter_witness:
  "refresh_in_progress refreshing \<and>
   fst (refresh_auth E_waiter K0 refreshing) = Return () \<and>
   trace (snd (refresh_auth E_waiter K0 refreshing)) = [EvRefreshAuth] \<and>
   http_calls (snd (refresh_auth E_waiter K0 refreshing)) = 0 \<and>
   fst (refresh_auth E_ok K0 refreshing) = Pending"
proof -
  have busy: "refresh_in_progress refreshing"
    by (simp add: refreshing_def)
  have cleared: "\<not> refresh_in_progress (sleeps_from E_waiter 0 1 (emit EvRefreshAuth refreshing))"
    by (simp add: E_waiter_def interfere_def complete_refresh_def release_refresh_def emit_def
        split_def Let_def)
  have returns: "fst (refresh_auth E_waiter K0 refreshing) = Return ()"
    using refresh_auth_waiter [OF busy, of E_waiter K0] cleared
    by (auto simp: E_waiter_def)
  have pending: "fst (refresh_auth E_ok K0 refreshing) = Pending"
    by (simp add: refresh_auth_def refreshing_def emit_def E_ok_def)
  show ?thesis
    using refresh_auth_waiter [OF busy, of E_waiter K0] busy returns pending
    by (simp add: refreshing_def restore_defs bundle_defs)
qed

text \<open>
  C2 as stated fails: the owner of the refresh fails in its first phase with
  \<^verbatim>\<open>AuthenticationRequired\<close>, and the caller that entered while the flag was true
  returns normally.
\<close>

theorem waiter_does_not_receive_owner_error:
  "fst (refresh_auth E_denied K0 populated) = Raise AuthenticationRequired \<and>
   refresh_in_progress refreshing \<and>
   fst (complete_refresh E_denied K0 refreshing) = Raise AuthenticationRequired \<and>
   fst (refresh_auth E_waiter K0 refreshing) = Return ()"
  by (simp add: refreshing_def E_waiter_def interfere_def numeral_eq_Suc eval_defs)


subsection \<open>\<^verbatim>\<open>_do_request_safe\<close>\<close>

lemma refresh_needed_frame:
  "trace (snd (refresh_needed E s)) = trace s"
  "http_calls (snd (refresh_needed E s)) = http_calls s"
  by (auto simp: refresh_needed_def Let_def split: sum.splits)

lemma do_request_counts:
  "http_calls (snd (do_request E m u hdrs add s)) = Suc (http_calls s)"
  "\<exists>h. trace (snd (do_request E m u hdrs add s)) = trace s @ [EvHttp m u h]"
  by (auto simp: do_request_def emit_def Let_def split: option.splits sum.splits)



lemma body_direct:
  "fst (refresh_needed E s) = Inr False \<Longrightarrow>
   request_with_refresh E K m u hdrs add s =
     (case do_request E m u hdrs add (snd (refresh_needed E s)) of
        (Raise e, s2) \<Rightarrow>
          if is_auth_error e
          then and_then (refresh_auth E K s2) (\<lambda>_ s3. do_request E m u hdrs add s3)
          else (Raise e, s2)
      | (r, s2) \<Rightarrow> (r, s2))"
  by (cases "refresh_needed E s") (simp add: request_with_refresh_def)

lemma refresh_then_request_trace:
  "\<exists>evs. trace (snd (and_then (refresh_auth E K s) (\<lambda>_ s2. do_request E m u hdrs add s2))) =
            trace s @ EvRefreshAuth # evs \<and> (\<forall>e \<in> set evs. inner_event e)"
proof -
  obtain evs where evs: "trace (snd (refresh_auth E K s)) = trace s @ EvRefreshAuth # evs"
    "\<forall>e \<in> set evs. inner_event e"
    using refresh_auth_trace by blast
  show ?thesis
  proof (cases "fst (refresh_auth E K s)")
    case (Return v)
    obtain h where h: "trace (snd (do_request E m u hdrs add (snd (refresh_auth E K s)))) =
        trace (snd (refresh_auth E K s)) @ [EvHttp m u h]"
      using do_request_counts(2) by blast
    have "trace (snd (and_then (refresh_auth E K s) (\<lambda>_ s2. do_request E m u hdrs add s2))) =
        trace s @ EvRefreshAuth # (evs @ [EvHttp m u h])"
      using Return h evs(1) by (cases "refresh_auth E K s") (simp add: and_then_def)
    moreover have "\<forall>e \<in> set (evs @ [EvHttp m u h]). inner_event e" using evs(2) by auto
    ultimately show ?thesis by blast
  next
    case (Raise e)
    then show ?thesis using evs by (cases "refresh_auth E K s") (auto simp: and_then_def)
  next
    case Pending
    then show ?thesis using evs by (cases "refresh_auth E K s") (auto simp: and_then_def)
  qed
qed




lemma new_events_append: "trace s' = trace s @ evs \<Longrightarrow> new_events s s' = evs"
  by (simp add: new_events_def)

lemma handler_frame:
  "fst (do_request_safe E K m u hdrs add s) = fst (request_with_refresh E K m u hdrs add s)"
  "http_calls (snd (do_request_safe E K m u hdrs add s)) =
     http_calls (snd (request_with_refresh E K m u hdrs add s))"
  "auth_lost_callback (snd (do_request_safe E K m u hdrs add s)) =
     auth_lost_callback (snd (request_with_refresh E K m u hdrs add s))"
  by (cases "request_with_refresh E K m u hdrs add s"; cases "fst (request_with_refresh E K m u hdrs add s)";
      simp add: do_request_safe_def emit_def Let_def)+

lemma handler_trace:
  "trace (snd (do_request_safe E K m u hdrs add s)) =
     trace (snd (request_with_refresh E K m u hdrs add s)) @
     (case fst (request_with_refresh E K m u hdrs add s) of
        Raise e \<Rightarrow>
          if is_auth_error e
          then EvLogAuthLost e #
               (if auth_lost_callback (snd (request_with_refresh E K m u hdrs add s))
                then [EvAuthLost] else [])
          else [EvLogFailed e]
      | _ \<Rightarrow> [])"
  by (cases "request_with_refresh E K m u hdrs add s"; cases "fst (request_with_refresh E K m u hdrs add s)";
      simp add: do_request_safe_def emit_def Let_def)









lemma count_inner: "\<forall>e \<in> set evs. inner_event e \<Longrightarrow> count_list evs EvRefreshAuth = 0"
  by (induction evs) auto



text \<open>
  C3, as the code has it. When no proactive refresh is due and the direct request fails
  with \<^verbatim>\<open>AuthenticationRequired\<close> or \<^verbatim>\<open>AccessDenied\<close>, the wrapper enters \<^verbatim>\<open>_refresh_auth\<close>
  exactly once. One request has been sent before that; after it, exactly one more is sent
  if \<^verbatim>\<open>_refresh_auth\<close> returns, and the outcome of the call is the outcome of that retry;
  none is sent if \<^verbatim>\<open>_refresh_auth\<close> raises, and the call raises the same exception.
\<close>

theorem fallback_refresh_and_retry:
  fixes E K m u hdrs add s
  defines "s1 \<equiv> snd (refresh_needed E s)"
  defines "s2 \<equiv> snd (do_request E m u hdrs add s1)"
  defines "r \<equiv> fst (refresh_auth E K s2)"
  defines "s3 \<equiv> snd (refresh_auth E K s2)"
  defines "final \<equiv> snd (do_request_safe E K m u hdrs add s)"
  assumes "fst (refresh_needed E s) = Inr False"
    and "fst (do_request E m u hdrs add s1) = Raise e"
    and "is_auth_error e"
  shows "count_list (new_events s final) EvRefreshAuth = 1 \<and>
         http_calls s2 = http_calls s + 1 \<and>
         http_calls final = http_calls s3 + (if r = Return () then 1 else 0) \<and>
         (r = Return () \<longrightarrow>
            fst (do_request_safe E K m u hdrs add s) = fst (do_request E m u hdrs add s3)) \<and>
         (\<forall>e'. r = Raise e' \<longrightarrow> fst (do_request_safe E K m u hdrs add s) = Raise e') \<and>
         (r = Pending \<longrightarrow> fst (do_request_safe E K m u hdrs add s) = Pending)"
proof -
  let ?b = "request_with_refresh E K m u hdrs add s"
  let ?retry = "and_then (refresh_auth E K s2) (\<lambda>_ s3. do_request E m u hdrs add s3)"
  have d: "do_request E m u hdrs add s1 = (Raise e, s2)"
    using assms(7) by (simp add: s2_def prod_eq_iff)
  have b: "?b = ?retry"
    using assms(6,8) d by (simp add: body_direct s1_def[symmetric])
  have ra: "refresh_auth E K s2 = (r, s3)"
    by (simp add: r_def s3_def)
  have c2: "http_calls s2 = http_calls s + 1"
    by (simp add: s2_def s1_def do_request_counts refresh_needed_frame)
  obtain h where h: "trace s2 = trace s @ [EvHttp m u h]"
    using do_request_counts(2)[of E m u hdrs add s1]
    by (auto simp: s2_def s1_def refresh_needed_frame)
  obtain evs where evs: "trace (snd ?retry) = trace s2 @ EvRefreshAuth # evs"
    "\<forall>e \<in> set evs. inner_event e"
    using refresh_then_request_trace by blast
  let ?H = "(case fst ?b of
        Raise e \<Rightarrow>
          if is_auth_error e
          then EvLogAuthLost e # (if auth_lost_callback (snd ?b) then [EvAuthLost] else [])
          else [EvLogFailed e]
      | _ \<Rightarrow> [])"
  have H: "count_list ?H EvRefreshAuth = 0"
    by (cases "fst ?b") auto
  have "trace final = trace s @ (EvHttp m u h # EvRefreshAuth # evs @ ?H)"
    using evs(1) h by (simp add: final_def handler_trace b)
  then have "new_events s final = EvHttp m u h # EvRefreshAuth # evs @ ?H"
    by (rule new_events_append)
  then have c1: "count_list (new_events s final) EvRefreshAuth = 1"
    using count_inner[OF evs(2)] H by simp
  have c3: "http_calls final = http_calls s3 + (if r = Return () then 1 else 0)"
    using ra by (cases r) (simp_all add: final_def handler_frame b and_then_def do_request_counts)
  have o: "r = Return () \<longrightarrow> fst (do_request_safe E K m u hdrs add s) = fst (do_request E m u hdrs add s3)"
    "\<forall>e'. r = Raise e' \<longrightarrow> fst (do_request_safe E K m u hdrs add s) = Raise e'"
    "r = Pending \<longrightarrow> fst (do_request_safe E K m u hdrs add s) = Pending"
    using ra by (simp_all add: handler_frame b and_then_def)
  show ?thesis using c1 c2 c3 o by blast
qed





theorem fallback_refresh_and_retry_witness:
  "fst (refresh_needed E_expired populated) = Inr False \<and>
   fst (do_request E_expired ''get'' friends_url None None populated) = Raise AuthenticationRequired \<and>
   count_list
     (new_events populated
        (snd (do_request_safe E_expired K0 ''get'' friends_url None None populated)))
     EvRefreshAuth = 1 \<and>
   http_calls (snd (do_request_safe E_expired K0 ''get'' friends_url None None populated)) = 6 \<and>
   fst (do_request_safe E_expired K0 ''get'' friends_url None None populated) = Return auth_response"
proof -
  have d: "fst (refresh_needed E_expired populated) = Inr False"
    by (simp add: eval_defs)
  have s1: "snd (refresh_needed E_expired populated) = populated"
    by (simp add: eval_defs)
  have a: "fst (do_request E_expired ''get'' friends_url None None
                  (snd (refresh_needed E_expired populated))) = Raise AuthenticationRequired"
    by (simp add: s1) (simp add: eval_defs)
  have k: "is_auth_error AuthenticationRequired"
    by simp
  have c: "http_calls (snd (do_request_safe E_expired K0 ''get'' friends_url None None populated)) = 6"
    by (simp add: eval_defs)
  have r: "fst (do_request_safe E_expired K0 ''get'' friends_url None None populated) = Return auth_response"
    by (simp add: eval_defs)
  show ?thesis
    using fallback_refresh_and_retry [OF d a k, of K0] d a c r
    by (simp add: s1)
qed

text \<open>
  C3 as stated fails: when the refresh that follows the rejected request fails itself,
  the request is not sent a second time.
\<close>

theorem fallback_refresh_failure_skips_retry:
  "fst (refresh_needed E_denied populated) = Inr False \<and>
   fst (do_request E_denied ''get'' friends_url None None populated) = Raise AuthenticationRequired \<and>
   fst (do_request_safe E_denied K0 ''get'' friends_url None None populated) = Raise AuthenticationRequired \<and>
   trace (snd (do_request_safe E_denied K0 ''get'' friends_url None None populated)) =
     [EvHttp ''get'' friends_url
        [''Ubi-AppId'' \<mapsto> PStr ''app-id'', ''Authorization'' \<mapsto> PStr ''Ubi_v1 t=T1'',
         ''Ubi-SessionId'' \<mapsto> PStr ''S1''],
      EvRefreshAuth, EvFlag True,
      EvHttp ''options'' sessions_url
        [''Origin'' \<mapsto> PStr ''https://connect.ubisoft.com'',
         ''Referer'' \<mapsto> PStr ''https://connect.ubisoft.com/login?appId=314d4fef-e568-454a-ae06-43e3bece12a6'',
         ''User-Agent'' \<mapsto> PStr ''Mozilla/5.0''],
      EvFlag False, EvLogAuthLost AuthenticationRequired]"
  by (simp add: eval_defs)


end
